theory Spec2Isabelle
  imports Main
begin

section \<open>Deferred-delivery scheduler of the notification server\<close>

text \<open>
  A shallow embedding of package \<open>scheduler\<close> (the job registry \<open>jobs\<close>,
  \<open>scheduleAll\<close>, \<open>ScheduleMessage\<close> with its fire-time task,
  \<open>DeleteMessageSchedule\<close>, the two cascade cancellations and
  \<open>ToExternalMessage\<close>) and of the parts of \<open>api/message.go\<close> that call it
  (\<open>postponeMessage\<close>, \<open>toInternalMessage\<close>).

  Mutation is explicit state passing over the record \<open>State\<close>. A Go function without
  result is a function \<open>State \<Rightarrow> State\<close>; a function that can panic returns an
  \<open>outcome\<close> beside the state.
\<close>

subsection \<open>Data\<close>

text \<open>
  Go's \<open>uint\<close> identifiers and the job's \<open>uuid.UUID\<close> are only compared, never
  computed with, so they are natural numbers. A \<open>time.Time\<close> is an instant on a linear
  time line.
\<close>

type_synonym uint = nat
type_synonym uuid = nat
type_synonym time = int

text \<open>The values of a \<open>map[string]interface{}\<close> are opaque.\<close>

typedecl json

type_synonym extras = "(string \<times> json) list"

text \<open>
  \<open>model.Message\<close>: \<open>Extras\<close> is a byte slice (nil and empty both have length 0),
  \<open>PostponedAt\<close> a \<open>*time.Time\<close>.
\<close>

record Message =
  ID :: uint
  ApplicationID :: uint
  Message :: string
  Title :: string
  Priority :: int
  Extras :: string
  Date :: time
  PostponedAt :: "time option"

text \<open>
  \<open>model.MessageExternal\<close>, its fields prefixed with \<open>ext_\<close>: \<open>Priority\<close> is a
  \<open>*int\<close>, \<open>Extras\<close> a map that may be nil.
\<close>

record MessageExternal =
  ext_ID :: uint
  ext_ApplicationID :: uint
  ext_Message :: string
  ext_Title :: string
  ext_Priority :: "int option"
  ext_Extras :: "extras option"
  ext_Date :: time
  ext_PostponedAt :: "time option"

text \<open>\<open>model.Application\<close>, the two fields the code reads.\<close>

record Application =
  app_ID :: uint
  app_UserID :: uint

datatype error =
  ErrRecordNotFound
  | ErrStore string
  | ErrTimerEngine
  | ErrNilPointer

text \<open>What a call ends with: it returns, or it panics with a value.\<close>

datatype outcome = Returned | Panicked error

text \<open>The lines \<open>fmt.Println\<close> writes.\<close>

datatype log_line =
  ErrorGettingMessage uint error
  | ErrorSchedulingMessage uint error

text \<open>
  A pending one-time job of the timer engine: its id, its start time and the message
  identifier its task closes over.
\<close>

record Job =
  job_id :: uuid
  start_at :: time
  task_msg :: uint

text \<open>
  The state of the process: the package variable \<open>jobs\<close> (message id to job id), the
  timer engine's pending jobs and the next job id it hands out, the tables the database
  holds, a failure the database is in (every query then fails with it), the calls
  \<open>api.Notify\<close> has received, and the console.
\<close>

record State =
  jobs :: "uint \<rightharpoonup> uuid"
  timers :: "Job list"
  next_uuid :: uuid
  db_messages :: "Message list"
  db_applications :: "Application list"
  db_failure :: "string option"
  notified :: "(uint \<times> MessageExternal) list"
  console :: "log_line list"

text \<open>
  What the libraries outside the repository decide: whether the timer engine's
  \<open>NewJob\<close> rejects a one-time job for a start time, what \<open>json.Marshal\<close> produces,
  and what \<open>json.Unmarshal\<close> leaves in the freshly made map it is handed: the decoded
  members, the map as it was made when decoding fails, or nil (\<open>None\<close>) for the JSON
  text \<open>null\<close>. An error of either is ignored by the code, so each is a total function.
\<close>

record Env =
  NewJob_rejects :: "time \<Rightarrow> bool"
  json_Marshal :: "extras \<Rightarrow> string"
  json_Unmarshal :: "string \<Rightarrow> extras option"

subsection \<open>The database queries the scheduler issues\<close>

text \<open>
  Modelled from the spec: package \<open>database\<close> (the Message Store and the
  Application/User Directory) is not among the sources. The store is "a persistence
  layer keyed by message identifier, supporting point lookups, existence checks, and a
  range query" for "all messages whose postponement time is at/after a given instant".
  As the calls are written, \<open>Where(...).First\<close> yields the first matching row, or an
  error (also when no row matches); \<open>Where(...).Find\<close> yields the matching rows and
  leaves the slice empty when it fails; a comparison with a NULL \<open>postponed_at\<close>
  selects nothing.
\<close>

definition First_by_id :: "uint \<Rightarrow> State \<Rightarrow> error + Message" where
  "First_by_id msgId s =
     (case db_failure s of
        Some e \<Rightarrow> Inl (ErrStore e)
      | None \<Rightarrow>
          (case find (\<lambda>m. ID m = msgId) (db_messages s) of
             None \<Rightarrow> Inl ErrRecordNotFound
           | Some m \<Rightarrow> Inr m))"

definition postponed_since :: "time \<Rightarrow> Message \<Rightarrow> bool" where
  "postponed_since now m =
     (case PostponedAt m of None \<Rightarrow> False | Some t \<Rightarrow> now \<le> t)"

definition Find_postponed_since :: "time \<Rightarrow> State \<Rightarrow> Message list" where
  "Find_postponed_since now s =
     (case db_failure s of
        Some e \<Rightarrow> []
      | None \<Rightarrow> filter (postponed_since now) (db_messages s))"

definition Find_by_application :: "uint \<Rightarrow> State \<Rightarrow> Message list" where
  "Find_by_application appID s =
     (case db_failure s of
        Some e \<Rightarrow> []
      | None \<Rightarrow> filter (\<lambda>m. ApplicationID m = appID) (db_messages s))"

definition GetApplicationsByUser :: "uint \<Rightarrow> State \<Rightarrow> Application list \<times> error option" where
  "GetApplicationsByUser userID s =
     (case db_failure s of
        Some e \<Rightarrow> ([], Some (ErrStore e))
      | None \<Rightarrow> (filter (\<lambda>a. app_UserID a = userID) (db_applications s), None))"

text \<open>
  Modelled from the spec: the functions of the \<open>MessageDatabase\<close> interface that
  \<open>postponeMessage\<close> calls, implemented in package \<open>database\<close>. A lookup yields nil
  (here \<open>None\<close>) for an absent row, as the handler's nil checks expect;
  \<open>UpdateMessagePostponement\<close> writes the \<open>postponedAt\<close> of the row.
\<close>

definition GetMessageByID :: "uint \<Rightarrow> State \<Rightarrow> error + Message option" where
  "GetMessageByID msgId s =
     (case db_failure s of
        Some e \<Rightarrow> Inl (ErrStore e)
      | None \<Rightarrow> Inr (find (\<lambda>m. ID m = msgId) (db_messages s)))"

definition GetApplicationByID :: "uint \<Rightarrow> State \<Rightarrow> error + Application option" where
  "GetApplicationByID appID s =
     (case db_failure s of
        Some e \<Rightarrow> Inl (ErrStore e)
      | None \<Rightarrow> Inr (find (\<lambda>a. app_ID a = appID) (db_applications s)))"

definition UpdateMessagePostponement :: "uint \<Rightarrow> time option \<Rightarrow> State \<Rightarrow> error option \<times> State" where
  "UpdateMessagePostponement msgId postponedAt s =
     (case db_failure s of
        Some e \<Rightarrow> (Some (ErrStore e), s)
      | None \<Rightarrow>
          (None,
           s\<lparr>db_messages :=
               map (\<lambda>m. if ID m = msgId then m\<lparr>PostponedAt := postponedAt\<rparr> else m)
                 (db_messages s)\<rparr>))"

subsection \<open>The timer engine and the dispatch sink\<close>

text \<open>
  Modelled from the spec: the Timer Engine (the library behind \<open>s.scheduler\<close>) is not
  among the sources. It "schedules a callback to run at (or immediately after) an
  absolute instant, and supports pre-fire cancellation by handle"; a request it rejects
  changes nothing. Whether it rejects is \<open>NewJob_rejects\<close> of the environment. A new
  job gets an id no job had before.
\<close>

definition NewJob :: "Env \<Rightarrow> time \<Rightarrow> uint \<Rightarrow> State \<Rightarrow> error + (uuid \<times> State)" where
  "NewJob env startAt msgId s =
     (if NewJob_rejects env startAt then Inl ErrTimerEngine
      else Inr (next_uuid s,
             s\<lparr>timers := timers s @ [\<lparr>job_id = next_uuid s, start_at = startAt, task_msg = msgId\<rparr>],
               next_uuid := Suc (next_uuid s)\<rparr>))"

definition RemoveJob :: "uuid \<Rightarrow> State \<Rightarrow> State" where
  "RemoveJob jobId s = s\<lparr>timers := filter (\<lambda>j. job_id j \<noteq> jobId) (timers s)\<rparr>"

text \<open>\<open>api.Notify\<close>: the call is recorded.\<close>

definition Notify :: "uint \<Rightarrow> MessageExternal \<Rightarrow> State \<Rightarrow> State" where
  "Notify userID message s = s\<lparr>notified := notified s @ [(userID, message)]\<rparr>"

subsection \<open>Package scheduler\<close>

definition ToExternalMessage :: "Env \<Rightarrow> Message \<Rightarrow> MessageExternal" where
  "ToExternalMessage env msg =
     (let res = \<lparr>ext_ID = ID msg,
                 ext_ApplicationID = ApplicationID msg,
                 ext_Message = Message msg,
                 ext_Title = Title msg,
                 ext_Priority = Some (Priority msg),
                 ext_Extras = None,
                 ext_Date = Date msg,
                 ext_PostponedAt = PostponedAt msg\<rparr>
      in if length (Extras msg) \<noteq> 0
         then res\<lparr>ext_Extras := json_Unmarshal env (Extras msg)\<rparr>
         else res)"

definition DeleteMessageSchedule :: "Message \<Rightarrow> State \<Rightarrow> State" where
  "DeleteMessageSchedule message s =
     (case jobs s (ID message) of
        None \<Rightarrow> s
      | Some jobId \<Rightarrow>
          (let s1 = RemoveJob jobId s
           in s1\<lparr>jobs := (jobs s1)(ID message := None)\<rparr>))"

text \<open>The task \<open>ScheduleMessage\<close> hands to the timer engine, run when the job fires.\<close>

definition fire_task :: "Env \<Rightarrow> uint \<Rightarrow> State \<Rightarrow> outcome \<times> State" where
  "fire_task env msgId s =
     (case First_by_id msgId s of
        Inl err \<Rightarrow>
          (Panicked err, s\<lparr>console := console s @ [ErrorGettingMessage msgId err]\<rparr>)
      | Inr message \<Rightarrow>
          (let userId = ApplicationID message;
               s1 = DeleteMessageSchedule message s
           in (Returned, Notify userId (ToExternalMessage env message) s1)))"

definition ScheduleMessage :: "Env \<Rightarrow> uint \<Rightarrow> time \<Rightarrow> State \<Rightarrow> State" where
  "ScheduleMessage env msgId postponedAt s =
     (case NewJob env postponedAt msgId s of
        Inl err \<Rightarrow> s\<lparr>console := console s @ [ErrorSchedulingMessage msgId err]\<rparr>
      | Inr (jobId, s1) \<Rightarrow> s1\<lparr>jobs := (jobs s1)(msgId \<mapsto> jobId)\<rparr>)"

text \<open>
  The loop of \<open>scheduleAll\<close>; \<open>*message.PostponedAt\<close> on a nil pointer panics.
\<close>

fun schedule_each :: "Env \<Rightarrow> Message list \<Rightarrow> State \<Rightarrow> outcome \<times> State" where
  "schedule_each env [] s = (Returned, s)"
| "schedule_each env (message # messages) s =
     (case PostponedAt message of
        None \<Rightarrow> (Panicked ErrNilPointer, s)
      | Some t \<Rightarrow> schedule_each env messages (ScheduleMessage env (ID message) t s))"

definition scheduleAll :: "Env \<Rightarrow> time \<Rightarrow> State \<Rightarrow> outcome \<times> State" where
  "scheduleAll env now s = schedule_each env (Find_postponed_since now s) s"

fun delete_each :: "Message list \<Rightarrow> State \<Rightarrow> State" where
  "delete_each [] s = s"
| "delete_each (message # messages) s = delete_each messages (DeleteMessageSchedule message s)"

definition DeleteMessagesScheduleByApplication :: "uint \<Rightarrow> State \<Rightarrow> State" where
  "DeleteMessagesScheduleByApplication appID s = delete_each (Find_by_application appID s) s"

fun delete_each_app :: "Application list \<Rightarrow> State \<Rightarrow> State" where
  "delete_each_app [] s = s"
| "delete_each_app (app # apps) s =
     delete_each_app apps (DeleteMessagesScheduleByApplication (app_ID app) s)"

definition DeleteMessagesScheduleByUser :: "uint \<Rightarrow> State \<Rightarrow> State" where
  "DeleteMessagesScheduleByUser userID s =
     (case GetApplicationsByUser userID s of
        (app, _) \<Rightarrow> delete_each_app app s)"

text \<open>
  Modelled from the spec: the Timer Engine fires a pending job, "Timer Engine fires at
  \<open>time\<close>" and the "callback reloads the message". The one-time job leaves the engine
  and its task runs; a job that is not pending cannot fire.
\<close>

definition fire :: "Env \<Rightarrow> uuid \<Rightarrow> State \<Rightarrow> outcome \<times> State" where
  "fire env jobId s =
     (case find (\<lambda>j. job_id j = jobId) (timers s) of
        None \<Rightarrow> (Returned, s)
      | Some j \<Rightarrow> fire_task env (task_msg j) (RemoveJob jobId s))"

subsection \<open>Package api\<close>

definition toInternalMessage :: "Env \<Rightarrow> MessageExternal \<Rightarrow> Message" where
  "toInternalMessage env msg =
     (let res = \<lparr>ID = ext_ID msg,
                 ApplicationID = ext_ApplicationID msg,
                 Message = ext_Message msg,
                 Title = ext_Title msg,
                 Priority = 0,
                 Extras = [],
                 Date = ext_Date msg,
                 PostponedAt = ext_PostponedAt msg\<rparr>;
          res1 = (case ext_Priority msg of
                    Some p \<Rightarrow> res\<lparr>Priority := p\<rparr>
                  | None \<Rightarrow> res)
      in case ext_Extras msg of
           Some x \<Rightarrow> res1\<lparr>Extras := json_Marshal env x\<rparr>
         | None \<Rightarrow> res1)"

text \<open>What a handler answers: nothing beyond the default status 200, or an abort.\<close>

datatype response = Status200 | Abort nat

text \<open>
  \<open>postponeMessage\<close> for the authenticated user \<open>userID\<close> and the path parameter
  \<open>id\<close> (here \<open>msgId\<close>).
\<close>

definition postponeMessage :: "Env \<Rightarrow> uint \<Rightarrow> uint \<Rightarrow> time option \<Rightarrow> State \<Rightarrow> response \<times> State" where
  "postponeMessage env userID msgId postponedAt s =
     (case GetMessageByID msgId s of
        Inl err \<Rightarrow> (Abort 500, s)
      | Inr None \<Rightarrow> (Abort 404, s)
      | Inr (Some msg) \<Rightarrow>
          (case GetApplicationByID (ApplicationID msg) s of
             Inl err \<Rightarrow> (Abort 500, s)
           | Inr app \<Rightarrow>
               (if (case app of None \<Rightarrow> False | Some a \<Rightarrow> app_UserID a = userID)
                then
                  (let s1 = DeleteMessageSchedule msg s;
                       s2 = (case postponedAt of
                               Some t \<Rightarrow> ScheduleMessage env (ID msg) t s1
                             | None \<Rightarrow> s1)
                   in case UpdateMessagePostponement msgId postponedAt s2 of
                        (None, s3) \<Rightarrow> (Status200, s3)
                      | (Some err, s3) \<Rightarrow> (Abort 500, s3))
                else (Abort 404, s))))"

subsection \<open>Sequences of operations\<close>

text \<open>
  The operations on the scheduler: the calls of \<open>ScheduleMessage\<close>,
  \<open>DeleteMessageSchedule\<close> and the two cascade cancellations, the timer engine firing
  a job, and the handler \<open>postponeMessage\<close> (authenticated user, message id, instant).
\<close>

datatype op =
  Schedule uint time
  | Cancel Message
  | Fire uuid
  | CancelByApplication uint
  | CancelByUser uint
  | Postpone uint uint "time option"

fun step :: "Env \<Rightarrow> op \<Rightarrow> State \<Rightarrow> State" where
  "step env (Schedule msgId postponedAt) s = ScheduleMessage env msgId postponedAt s"
| "step env (Cancel message) s = DeleteMessageSchedule message s"
| "step env (Fire jobId) s = snd (fire env jobId s)"
| "step env (CancelByApplication appID) s = DeleteMessagesScheduleByApplication appID s"
| "step env (CancelByUser userID) s = DeleteMessagesScheduleByUser userID s"
| "step env (Postpone userID msgId postponedAt) s =
     snd (postponeMessage env userID msgId postponedAt s)"

text \<open>The states a sequence of operations passes through, the first one included.\<close>

fun run :: "Env \<Rightarrow> op list \<Rightarrow> State \<Rightarrow> State list" where
  "run env [] s = [s]"
| "run env (x # xs) s = s # run env xs (step env x s)"

text \<open>The pending timers whose task delivers message \<open>msgId\<close>.\<close>

definition live_jobs :: "uint \<Rightarrow> State \<Rightarrow> Job list" where
  "live_jobs msgId s = filter (\<lambda>j. task_msg j = msgId) (timers s)"

text \<open>
  The discipline of the callers: \<open>ScheduleMessage\<close> is called for an identifier that
  has no pending timer (\<open>postponeMessage\<close> calls \<open>DeleteMessageSchedule\<close> first).
\<close>

fun stale_cancelled :: "op \<Rightarrow> State \<Rightarrow> bool" where
  "stale_cancelled (Schedule msgId postponedAt) s = (live_jobs msgId s = [])"
| "stale_cancelled x s = True"

fun cancels_first :: "Env \<Rightarrow> op list \<Rightarrow> State \<Rightarrow> bool" where
  "cancels_first env [] s = True"
| "cancels_first env (x # xs) s = (stale_cancelled x s \<and> cancels_first env xs (step env x s))"

text \<open>
  The registry names every pending timer: job ids are pairwise different and below the
  next id, and the registry maps a timer's message to the timer's id.
\<close>

definition registry_tracks_timers :: "State \<Rightarrow> bool" where
  "registry_tracks_timers s \<longleftrightarrow>
     distinct (map job_id (timers s))
     \<and> (\<forall>j \<in> set (timers s). jobs s (task_msg j) = Some (job_id j) \<and> job_id j < next_uuid s)"

subsection \<open>Example environments and states\<close>

text \<open>
  An environment whose timer engine accepts every request and one whose engine rejects
  every request; the JSON functions yield no bytes and an empty map.
\<close>

definition env_accept :: Env where
  "env_accept = \<lparr>NewJob_rejects = (\<lambda>t. False), json_Marshal = (\<lambda>x. []), json_Unmarshal = (\<lambda>b. Some [])\<rparr>"

definition env_reject :: Env where
  "env_reject = \<lparr>NewJob_rejects = (\<lambda>t. True), json_Marshal = (\<lambda>x. []), json_Unmarshal = (\<lambda>b. Some [])\<rparr>"

text \<open>
  The state \<open>Init\<close> starts from: \<open>jobs\<close> is the empty map of the package variable's
  initialiser, the new engine has no job, nothing was notified or printed.
\<close>

definition initial_state :: "Message list \<Rightarrow> Application list \<Rightarrow> string option \<Rightarrow> State" where
  "initial_state msgs apps failure =
     \<lparr>jobs = Map.empty, timers = [], next_uuid = 0, db_messages = msgs,
      db_applications = apps, db_failure = failure, notified = [], console = []\<rparr>"

text \<open>
  Application 7 belongs to user 3; message 1 of application 7 is postponed to instant
  200 and message 2 to instant 50.
\<close>

definition app7 :: Application where
  "app7 = \<lparr>app_ID = 7, app_UserID = 3\<rparr>"

definition msg1 :: Message where
  "msg1 = \<lparr>ID = 1, ApplicationID = 7, Message = ''hello'', Title = ''greeting'',
            Priority = 5, Extras = [], Date = 100, PostponedAt = Some 200\<rparr>"

definition msg2 :: Message where
  "msg2 = \<lparr>ID = 2, ApplicationID = 7, Message = ''late'', Title = ''overdue'',
            Priority = 2, Extras = [], Date = 10, PostponedAt = Some 50\<rparr>"

definition ext1 :: MessageExternal where
  "ext1 = \<lparr>ext_ID = 1, ext_ApplicationID = 7, ext_Message = ''hello'',
            ext_Title = ''greeting'', ext_Priority = Some 5, ext_Extras = None,
            ext_Date = 100, ext_PostponedAt = Some 200\<rparr>"

text \<open>Message 1 scheduled on the initial state, and a store with both messages.\<close>

definition scheduled1 :: State where
  "scheduled1 = ScheduleMessage env_accept 1 200 (initial_state [msg1] [app7] None)"

definition two_messages :: State where
  "two_messages = initial_state [msg1, msg2] [app7] None"

section \<open>Properties\<close>

subsection \<open>Facts about the queries and the cancellation\<close>

lemma First_by_id_Inr:
  "First_by_id msgId s = Inr message \<Longrightarrow> ID message = msgId \<and> message \<in> set (db_messages s) \<and> db_failure s = None"
  by (auto simp: First_by_id_def find_Some_iff split: option.splits)

lemma First_by_id_fails:
  "db_failure s \<noteq> None \<or> msgId \<notin> ID ` set (db_messages s) \<Longrightarrow> \<exists>err. First_by_id msgId s = Inl err"
  by (cases "db_failure s") (auto simp: First_by_id_def find_None_iff split: option.splits)

lemma DeleteMessageSchedule_frame:
  "db_messages (DeleteMessageSchedule message s) = db_messages s"
  "db_applications (DeleteMessageSchedule message s) = db_applications s"
  "db_failure (DeleteMessageSchedule message s) = db_failure s"
  "notified (DeleteMessageSchedule message s) = notified s"
  "console (DeleteMessageSchedule message s) = console s"
  "next_uuid (DeleteMessageSchedule message s) = next_uuid s"
  by (simp_all add: DeleteMessageSchedule_def RemoveJob_def Let_def split: option.splits)

lemma DeleteMessageSchedule_jobs:
  "jobs (DeleteMessageSchedule message s) = (jobs s)(ID message := None)"
  by (auto simp: DeleteMessageSchedule_def RemoveJob_def Let_def split: option.splits)

lemma scheduled1_eq:
  "scheduled1 = \<lparr>jobs = [1 \<mapsto> 0], timers = [\<lparr>job_id = 0, start_at = 200, task_msg = 1\<rparr>], next_uuid = 1,
     db_messages = [msg1], db_applications = [app7], db_failure = None, notified = [], console = []\<rparr>"
  by (simp add: scheduled1_def ScheduleMessage_def NewJob_def env_accept_def initial_state_def)

subsection \<open>The fire-time task\<close>

text \<open>
  C1 (as amended). When the timer of a message fires and the message is still in the
  store, the task returns, removes the registry entry of the message and hands the
  message to \<open>Notify\<close>; it does not write to the store, so the persisted message keeps
  its \<open>PostponedAt\<close>, and the delivered message carries it.
\<close>

theorem C1_fire_keeps_postponement:
  assumes "First_by_id msgId s = Inr message"
  shows "fst (fire_task env msgId s) = Returned
       \<and> db_messages (snd (fire_task env msgId s)) = db_messages s
       \<and> jobs (snd (fire_task env msgId s)) = (jobs s)(msgId := None)
       \<and> notified (snd (fire_task env msgId s)) =
           notified s @ [(ApplicationID message, ToExternalMessage env message)]
       \<and> ext_PostponedAt (ToExternalMessage env message) = PostponedAt message"
proof -
  have i: "ID message = msgId" using assms by (simp add: First_by_id_Inr)
  have e: "ext_PostponedAt (ToExternalMessage env message) = PostponedAt message"
    by (simp add: ToExternalMessage_def Let_def)
  show ?thesis using assms i e
    by (simp add: fire_task_def Let_def Notify_def DeleteMessageSchedule_frame DeleteMessageSchedule_jobs)
qed

theorem C1_fire_keeps_postponement_witness:
  "First_by_id 1 scheduled1 = Inr msg1
   \<and> fst (fire_task env_accept 1 scheduled1) = Returned
   \<and> db_messages (snd (fire_task env_accept 1 scheduled1)) = [msg1]
   \<and> jobs (snd (fire_task env_accept 1 scheduled1)) 1 = None
   \<and> PostponedAt msg1 = Some 200"
proof -
  have h: "First_by_id 1 scheduled1 = Inr msg1"
    by (simp add: scheduled1_eq First_by_id_def msg1_def)
  from C1_fire_keeps_postponement [OF h, of env_accept] h show ?thesis
    by (simp add: scheduled1_eq msg1_def)
qed

text \<open>
  The claim as stated fails: after the job of message 1 has fired and the message was
  delivered, the store still holds the postponement.
\<close>

theorem C1_counterexample:
  "fst (fire env_accept 0 scheduled1) = Returned
   \<and> map PostponedAt (db_messages (snd (fire env_accept 0 scheduled1))) = [Some 200]
   \<and> map fst (notified (snd (fire env_accept 0 scheduled1))) = [7]"
  by (simp add: scheduled1_eq fire_def fire_task_def First_by_id_def RemoveJob_def
      DeleteMessageSchedule_def Notify_def Let_def msg1_def)

text \<open>
  C2. The task calls \<open>Notify\<close> with the message's \<open>ApplicationID\<close> where the owner's
  user identifier belongs: message 1 of application 7, which user 3 owns, is delivered
  to the subscribers of identifier 7.
\<close>

theorem C2_notify_gets_application_id:
  "map fst (notified (snd (fire env_accept 0 scheduled1))) = [7]
   \<and> map app_UserID (filter (\<lambda>a. app_ID a = 7) (db_applications scheduled1)) = [3]"
  by (simp add: scheduled1_eq fire_def fire_task_def First_by_id_def RemoveJob_def
      DeleteMessageSchedule_def Notify_def Let_def msg1_def app7_def)

text \<open>
  C3 (as amended). When the task cannot reload the message (the store fails, or no row
  has the identifier), it prints the error of the reload and panics with that same
  error; the registry, the timer engine and the store are as before and \<open>Notify\<close> is
  not called.
\<close>

theorem C3_reload_failure_panics:
  assumes "First_by_id msgId s = Inl err"
  shows "fire_task env msgId s =
           (Panicked err, s\<lparr>console := console s @ [ErrorGettingMessage msgId err]\<rparr>)"
  using assms by (simp add: fire_task_def)

theorem C3_reload_failure_witness:
  "First_by_id 1 (scheduled1\<lparr>db_messages := []\<rparr>) = Inl ErrRecordNotFound
   \<and> fire_task env_accept 1 (scheduled1\<lparr>db_messages := []\<rparr>) =
       (Panicked ErrRecordNotFound,
        scheduled1\<lparr>db_messages := [], console := [ErrorGettingMessage 1 ErrRecordNotFound]\<rparr>)
   \<and> jobs (snd (fire_task env_accept 1 (scheduled1\<lparr>db_messages := []\<rparr>))) 1 = Some 0
   \<and> notified (snd (fire_task env_accept 1 (scheduled1\<lparr>db_messages := []\<rparr>))) = []"
proof -
  have h: "First_by_id 1 (scheduled1\<lparr>db_messages := []\<rparr>) = Inl ErrRecordNotFound"
    by (simp add: scheduled1_eq First_by_id_def)
  from C3_reload_failure_panics [OF h, of env_accept] h show ?thesis
    by (simp add: scheduled1_eq)
qed

text \<open>
  The error is the store's: the failure the store is in, or that no row matched.
\<close>

lemma First_by_id_error:
  "First_by_id msgId s = Inl err \<Longrightarrow>
   (case db_failure s of Some e \<Rightarrow> err = ErrStore e | None \<Rightarrow> err = ErrRecordNotFound)"
  by (auto simp: First_by_id_def split: option.splits)

text \<open>
  The claim as stated fails: the task panics when the message was deleted, and when the
  store fails.
\<close>

theorem C3_counterexample:
  "fst (fire env_accept 0 (scheduled1\<lparr>db_messages := []\<rparr>)) = Panicked ErrRecordNotFound
   \<and> fst (fire env_accept 0 (scheduled1\<lparr>db_failure := Some ''database is locked''\<rparr>))
       = Panicked (ErrStore ''database is locked'')"
  by (simp add: scheduled1_eq fire_def fire_task_def First_by_id_def RemoveJob_def)

subsection \<open>A schedule request the timer engine rejects\<close>

text \<open>
  C7 (as amended). When the timer engine rejects the request, \<open>ScheduleMessage\<close>
  leaves the registry and the rest of the state as they were and prints the failure;
  it has no result, so nothing is reported to its caller.
\<close>

theorem C7_rejected_schedule_only_logs:
  assumes "NewJob_rejects env postponedAt"
  shows "ScheduleMessage env msgId postponedAt s =
           s\<lparr>console := console s @ [ErrorSchedulingMessage msgId ErrTimerEngine]\<rparr>"
  using assms by (simp add: ScheduleMessage_def NewJob_def)

theorem C7_rejected_schedule_witness:
  "NewJob_rejects env_reject 200
   \<and> ScheduleMessage env_reject 1 200 (initial_state [msg1] [app7] None) =
       (initial_state [msg1] [app7] None)\<lparr>console := [ErrorSchedulingMessage 1 ErrTimerEngine]\<rparr>"
proof -
  have h: "NewJob_rejects env_reject 200" by (simp add: env_reject_def)
  from C7_rejected_schedule_only_logs [OF h, of 1 "initial_state [msg1] [app7] None"] h
  show ?thesis by (simp add: initial_state_def)
qed

text \<open>
  The claim as stated fails: \<open>postponeMessage\<close> answers the same whether the engine
  rejected or accepted the request, and stores the postponement although no job exists.
\<close>

theorem C7_counterexample:
  "fst (postponeMessage env_reject 3 1 (Some 300) (initial_state [msg1] [app7] None)) = Status200
   \<and> fst (postponeMessage env_accept 3 1 (Some 300) (initial_state [msg1] [app7] None)) = Status200
   \<and> jobs (snd (postponeMessage env_reject 3 1 (Some 300) (initial_state [msg1] [app7] None))) 1 = None
   \<and> jobs (snd (postponeMessage env_accept 3 1 (Some 300) (initial_state [msg1] [app7] None))) 1 = Some 0
   \<and> map PostponedAt
        (db_messages (snd (postponeMessage env_reject 3 1 (Some 300) (initial_state [msg1] [app7] None))))
       = [Some 300]"
  by (simp add: postponeMessage_def GetMessageByID_def GetApplicationByID_def
      UpdateMessagePostponement_def DeleteMessageSchedule_def ScheduleMessage_def NewJob_def
      initial_state_def env_accept_def env_reject_def msg1_def app7_def Let_def)

subsection \<open>Cancelling without a registry entry\<close>

text \<open>
  C8. For every message, \<open>DeleteMessageSchedule\<close> on an identifier without a registry
  entry (never scheduled, already fired or already cancelled) returns the state it was
  given: the registry, the timer engine and everything else are unchanged, and the
  function has no error to return.
\<close>

theorem C8_cancel_absent_is_noop:
  "jobs s (ID message) = None \<Longrightarrow> DeleteMessageSchedule message s = s"
  by (simp add: DeleteMessageSchedule_def)

theorem C8_cancel_absent_witness:
  "jobs (initial_state [msg1] [app7] None) (ID msg1) = None
   \<and> DeleteMessageSchedule msg1 (initial_state [msg1] [app7] None) = initial_state [msg1] [app7] None"
proof -
  have h: "jobs (initial_state [msg1] [app7] None) (ID msg1) = None"
    by (simp add: initial_state_def)
  from C8_cancel_absent_is_noop [OF h] h show ?thesis by simp
qed

subsection \<open>Round trip of the message conversions\<close>

lemma roundtrip_nil_extras:
  "ext_Extras m = None \<Longrightarrow> ext_Priority m = Some p \<Longrightarrow>
   ToExternalMessage env (toInternalMessage env m) = m"
  by (simp add: ToExternalMessage_def toInternalMessage_def)

text \<open>
  C10. For every external message with a non-nil \<open>Priority\<close> and nil \<open>Extras\<close>,
  \<open>ToExternalMessage\<close> after \<open>toInternalMessage\<close> agrees with the message on
  \<open>ID\<close>, \<open>ApplicationID\<close>, \<open>Message\<close>, \<open>Title\<close>, \<open>Priority\<close>, \<open>Date\<close> and
  \<open>PostponedAt\<close>: the postponement is neither dropped nor altered.
\<close>

theorem C10_roundtrip:
  assumes "ext_Priority m = Some p" and "ext_Extras m = None"
  shows "ext_ID (ToExternalMessage env (toInternalMessage env m)) = ext_ID m
       \<and> ext_ApplicationID (ToExternalMessage env (toInternalMessage env m)) = ext_ApplicationID m
       \<and> ext_Message (ToExternalMessage env (toInternalMessage env m)) = ext_Message m
       \<and> ext_Title (ToExternalMessage env (toInternalMessage env m)) = ext_Title m
       \<and> ext_Priority (ToExternalMessage env (toInternalMessage env m)) = ext_Priority m
       \<and> ext_Date (ToExternalMessage env (toInternalMessage env m)) = ext_Date m
       \<and> ext_PostponedAt (ToExternalMessage env (toInternalMessage env m)) = ext_PostponedAt m"
  using assms by (simp add: roundtrip_nil_extras)

theorem C10_roundtrip_witness:
  "ext_Priority ext1 = Some 5 \<and> ext_Extras ext1 = None
   \<and> ext_ID (ToExternalMessage env_accept (toInternalMessage env_accept ext1)) = 1
   \<and> ext_Priority (ToExternalMessage env_accept (toInternalMessage env_accept ext1)) = Some 5
   \<and> ext_PostponedAt (ToExternalMessage env_accept (toInternalMessage env_accept ext1)) = Some 200"
proof -
  have p: "ext_Priority ext1 = Some 5" and x: "ext_Extras ext1 = None"
    by (simp_all add: ext1_def)
  from C10_roundtrip [OF p x, of env_accept] p x show ?thesis
    by (simp add: ext1_def)
qed

subsection \<open>Cascade cancellation when the store cannot be read\<close>

text \<open>
  C9 (as amended). When the store fails, the cascade cancellations ignore the failed
  read: they cancel nothing, print nothing and return the state unchanged, and they
  have no result that could carry the error.
\<close>

theorem C9_failed_read_is_silent:
  assumes "db_failure s = Some e"
  shows "DeleteMessagesScheduleByApplication appID s = s
       \<and> DeleteMessagesScheduleByUser userID s = s"
  using assms
  by (simp add: DeleteMessagesScheduleByApplication_def Find_by_application_def
      DeleteMessagesScheduleByUser_def GetApplicationsByUser_def)

theorem C9_failed_read_witness:
  "db_failure (scheduled1\<lparr>db_failure := Some ''database is locked''\<rparr>) = Some ''database is locked''
   \<and> DeleteMessagesScheduleByApplication 7 (scheduled1\<lparr>db_failure := Some ''database is locked''\<rparr>)
       = scheduled1\<lparr>db_failure := Some ''database is locked''\<rparr>
   \<and> DeleteMessagesScheduleByUser 3 (scheduled1\<lparr>db_failure := Some ''database is locked''\<rparr>)
       = scheduled1\<lparr>db_failure := Some ''database is locked''\<rparr>"
proof -
  have h: "db_failure (scheduled1\<lparr>db_failure := Some ''database is locked''\<rparr>) = Some ''database is locked''"
    by simp
  from C9_failed_read_is_silent [OF h, of 7 3] h show ?thesis by simp
qed

text \<open>
  The claim as stated fails: with a failing store the job of user 3's message stays
  registered and the call leaves no trace, while with a working store it is cancelled.
\<close>

theorem C9_counterexample:
  "DeleteMessagesScheduleByUser 3 (scheduled1\<lparr>db_failure := Some ''database is locked''\<rparr>)
     = scheduled1\<lparr>db_failure := Some ''database is locked''\<rparr>
   \<and> jobs (scheduled1\<lparr>db_failure := Some ''database is locked''\<rparr>) 1 = Some 0
   \<and> jobs (DeleteMessagesScheduleByUser 3 scheduled1) 1 = None"
  by (simp add: scheduled1_eq DeleteMessagesScheduleByUser_def GetApplicationsByUser_def
      DeleteMessagesScheduleByApplication_def Find_by_application_def DeleteMessageSchedule_def
      RemoveJob_def Let_def msg1_def app7_def)

subsection \<open>Recovery at startup\<close>

lemma Schedule_other:
  "x \<noteq> i \<Longrightarrow>
   live_jobs x (ScheduleMessage env i t s) = live_jobs x s
   \<and> jobs (ScheduleMessage env i t s) x = jobs s x"
  by (simp add: live_jobs_def ScheduleMessage_def NewJob_def)

lemma Schedule_accepted:
  "\<not> NewJob_rejects env t \<Longrightarrow>
   live_jobs i (ScheduleMessage env i t s) =
     live_jobs i s @ [\<lparr>job_id = next_uuid s, start_at = t, task_msg = i\<rparr>]
   \<and> jobs (ScheduleMessage env i t s) i = Some (next_uuid s)"
  by (simp add: live_jobs_def ScheduleMessage_def NewJob_def)

lemma Schedule_rejected:
  "NewJob_rejects env t \<Longrightarrow>
   live_jobs i (ScheduleMessage env i t s) = live_jobs i s
   \<and> jobs (ScheduleMessage env i t s) i = jobs s i
   \<and> ErrorSchedulingMessage i ErrTimerEngine \<in> set (console (ScheduleMessage env i t s))"
  by (simp add: live_jobs_def ScheduleMessage_def NewJob_def)

lemma Schedule_console:
  "set (console s) \<subseteq> set (console (ScheduleMessage env i t s))"
  by (auto simp: ScheduleMessage_def NewJob_def)

lemma schedule_each_console:
  "set (console s) \<subseteq> set (console (snd (schedule_each env ms s)))"
proof (induction ms arbitrary: s)
  case Nil
  then show ?case by simp
next
  case (Cons m ms)
  show ?case
  proof (cases "PostponedAt m")
    case None
    then show ?thesis by simp
  next
    case (Some t)
    have "set (console s) \<subseteq> set (console (ScheduleMessage env (ID m) t s))"
      by (rule Schedule_console)
    also have "\<dots> \<subseteq> set (console (snd (schedule_each env ms (ScheduleMessage env (ID m) t s))))"
      by (rule Cons.IH)
    finally show ?thesis using Some by simp
  qed
qed

text \<open>
  What the loop of \<open>scheduleAll\<close> leaves for one message it was given, relative to the
  state \<open>s\<close> it started from: one more timer that the registry names when the engine
  accepted the request, nothing but the printed line when the engine rejected it.
\<close>

definition scheduled_after :: "Env \<Rightarrow> Message \<Rightarrow> time \<Rightarrow> State \<Rightarrow> State \<Rightarrow> bool" where
  "scheduled_after env m t s s' =
     (if NewJob_rejects env t
      then live_jobs (ID m) s' = live_jobs (ID m) s
           \<and> jobs s' (ID m) = jobs s (ID m)
           \<and> ErrorSchedulingMessage (ID m) ErrTimerEngine \<in> set (console s')
      else (\<exists>j. live_jobs (ID m) s' = live_jobs (ID m) s @ [j]
               \<and> start_at j = t
               \<and> jobs s' (ID m) = Some (job_id j)))"

lemma schedule_each_effect:
  assumes "distinct (map ID ms)"
    and "\<forall>m \<in> set ms. PostponedAt m \<noteq> None"
  shows "fst (schedule_each env ms s) = Returned
       \<and> (\<forall>x. x \<notin> ID ` set ms \<longrightarrow>
             live_jobs x (snd (schedule_each env ms s)) = live_jobs x s
             \<and> jobs (snd (schedule_each env ms s)) x = jobs s x)
       \<and> (\<forall>m \<in> set ms. \<forall>t. PostponedAt m = Some t \<longrightarrow>
             scheduled_after env m t s (snd (schedule_each env ms s)))"
  using assms
proof (induction ms arbitrary: s)
  case Nil
  then show ?case by simp
next
  case (Cons m ms)
  from Cons.prems(2) obtain t where t: "PostponedAt m = Some t"
    by auto
  let ?s1 = "ScheduleMessage env (ID m) t s"
  let ?s' = "snd (schedule_each env ms ?s1)"
  have run: "schedule_each env (m # ms) s = schedule_each env ms ?s1"
    using t by simp
  from Cons.prems have d: "distinct (map ID ms)" and fresh: "ID m \<notin> ID ` set ms"
    and ok: "\<forall>m \<in> set ms. PostponedAt m \<noteq> None"
    by simp_all
  note IH = Cons.IH [OF d ok, of ?s1]
  from IH have ret: "fst (schedule_each env ms ?s1) = Returned" by simp
  from IH have out: "live_jobs x ?s' = live_jobs x ?s1 \<and> jobs ?s' x = jobs ?s1 x"
    if "x \<notin> ID ` set ms" for x using that by blast
  from IH have inn: "scheduled_after env m' t' ?s1 ?s'"
    if "m' \<in> set ms" "PostponedAt m' = Some t'" for m' t' using that by blast
  have p2: "live_jobs x ?s' = live_jobs x s \<and> jobs ?s' x = jobs s x"
    if "x \<notin> ID ` set (m # ms)" for x
  proof -
    from that have "x \<notin> ID ` set ms" and "x \<noteq> ID m" by auto
    with out [of x] Schedule_other [of x "ID m" env t s] show ?thesis by simp
  qed
  have p3: "scheduled_after env m' t' s ?s'"
    if "m' \<in> set (m # ms)" "PostponedAt m' = Some t'" for m' t'
  proof (cases "m' \<in> set ms")
    case True
    with fresh have "ID m' \<noteq> ID m" by (metis image_eqI)
    with Schedule_other [of "ID m'" "ID m" env t s]
    have o: "live_jobs (ID m') ?s1 = live_jobs (ID m') s" "jobs ?s1 (ID m') = jobs s (ID m')"
      by simp_all
    from inn [OF True that(2)] show ?thesis
      by (simp only: scheduled_after_def o)
  next
    case False
    with that(1) have m': "m' = m" by simp
    with that(2) t have t': "t' = t" by simp
    note same = out [OF fresh]
    show ?thesis
    proof (cases "NewJob_rejects env t")
      case True
      from Schedule_rejected [OF True, of "ID m" s] schedule_each_console [of ?s1 env ms]
      have "ErrorSchedulingMessage (ID m) ErrTimerEngine \<in> set (console ?s')"
        by blast
      with same Schedule_rejected [OF True, of "ID m" s] True show ?thesis
        unfolding m' t' by (simp add: scheduled_after_def)
    next
      case False
      with same Schedule_accepted [OF False, of "ID m" s] show ?thesis
        unfolding m' t' by (simp add: scheduled_after_def)
    qed
  qed
  show ?case unfolding run using ret p2 p3 by blast
qed

lemma distinct_ID_eq:
  "distinct (map ID ms) \<Longrightarrow> m \<in> set ms \<Longrightarrow> m' \<in> set ms \<Longrightarrow> ID m = ID m' \<Longrightarrow> m = m'"
  by (meson distinct_map inj_on_def)

text \<open>
  C5 (as amended). \<open>scheduleAll\<close> at startup (empty registry, no timer, unique message
  identifiers) returns. When the store answers the query, every persisted message
  postponed to \<open>now\<close> or later was passed to \<open>ScheduleMessage\<close> with its
  \<open>PostponedAt\<close>: it has exactly one live job, which the registry names, when the
  timer engine accepted the request, and no job but a printed line when the engine
  rejected it; every message postponed to before \<open>now\<close> has no job and no registry
  entry. When the query fails, nothing is scheduled and nothing is printed.
\<close>

theorem C5_scheduleAll_recovers_accepted_messages:
  assumes "jobs s = Map.empty" and "timers s = []"
    and "distinct (map ID (db_messages s))"
  shows "(db_failure s = None \<longrightarrow>
            fst (scheduleAll env now s) = Returned
            \<and> (\<forall>m \<in> set (db_messages s). \<forall>t. PostponedAt m = Some t \<longrightarrow>
                  (now \<le> t \<and> \<not> NewJob_rejects env t \<longrightarrow>
                     (\<exists>j. live_jobs (ID m) (snd (scheduleAll env now s)) = [j]
                          \<and> start_at j = t
                          \<and> jobs (snd (scheduleAll env now s)) (ID m) = Some (job_id j)))
                  \<and> (now \<le> t \<and> NewJob_rejects env t \<longrightarrow>
                       live_jobs (ID m) (snd (scheduleAll env now s)) = []
                       \<and> jobs (snd (scheduleAll env now s)) (ID m) = None
                       \<and> ErrorSchedulingMessage (ID m) ErrTimerEngine
                           \<in> set (console (snd (scheduleAll env now s))))
                  \<and> (t < now \<longrightarrow>
                       live_jobs (ID m) (snd (scheduleAll env now s)) = []
                       \<and> jobs (snd (scheduleAll env now s)) (ID m) = None)))
       \<and> (db_failure s \<noteq> None \<longrightarrow> scheduleAll env now s = (Returned, s))"
proof (cases "db_failure s")
  case (Some e)
  then show ?thesis by (simp add: scheduleAll_def Find_postponed_since_def)
next
  case None
  let ?ms = "filter (postponed_since now) (db_messages s)"
  let ?s' = "snd (schedule_each env ?ms s)"
  have all: "scheduleAll env now s = schedule_each env ?ms s"
    using None by (simp add: scheduleAll_def Find_postponed_since_def)
  have d: "distinct (map ID ?ms)"
    using assms(3) by (simp add: distinct_map_filter)
  have ok: "\<forall>m \<in> set ?ms. PostponedAt m \<noteq> None"
    by (auto simp: postponed_since_def split: option.splits)
  note eff = schedule_each_effect [OF d ok, of env s]
  have none: "live_jobs x s = []" "jobs s x = None" for x
    using assms(1,2) by (simp_all add: live_jobs_def)
  have selected: "scheduled_after env m t s ?s'"
    if "m \<in> set (db_messages s)" "PostponedAt m = Some t" "now \<le> t" for m t
  proof -
    from that have "m \<in> set ?ms" by (simp add: postponed_since_def)
    with eff that(2) show ?thesis by blast
  qed
  have accepted: "\<exists>j. live_jobs (ID m) ?s' = [j] \<and> start_at j = t
        \<and> jobs ?s' (ID m) = Some (job_id j)"
    if "m \<in> set (db_messages s)" "PostponedAt m = Some t" "now \<le> t" "\<not> NewJob_rejects env t"
    for m t
    using selected [OF that(1,2,3)] that(4) none by (simp add: scheduled_after_def)
  have rejected: "live_jobs (ID m) ?s' = [] \<and> jobs ?s' (ID m) = None
        \<and> ErrorSchedulingMessage (ID m) ErrTimerEngine \<in> set (console ?s')"
    if "m \<in> set (db_messages s)" "PostponedAt m = Some t" "now \<le> t" "NewJob_rejects env t"
    for m t
    using selected [OF that(1,2,3)] that(4) none by (simp add: scheduled_after_def)
  have past: "live_jobs (ID m) ?s' = [] \<and> jobs ?s' (ID m) = None"
    if "m \<in> set (db_messages s)" "PostponedAt m = Some t" "t < now" for m t
  proof -
    have "ID m \<notin> ID ` set ?ms"
    proof
      assume "ID m \<in> ID ` set ?ms"
      then obtain m' where m': "m' \<in> set ?ms" and e: "ID m = ID m'" by auto
      from m' have inn: "m' \<in> set (db_messages s)" by simp
      from assms(3) that(1) inn e have "m = m'" by (rule distinct_ID_eq)
      with m' that(2,3) show False by (simp add: postponed_since_def)
    qed
    with eff none show ?thesis by simp
  qed
  from eff have "fst (schedule_each env ?ms s) = Returned" by simp
  with accepted rejected past None show ?thesis unfolding all by blast
qed

theorem C5_scheduleAll_witness:
  "jobs two_messages = Map.empty \<and> timers two_messages = []
   \<and> distinct (map ID (db_messages two_messages))
   \<and> db_failure two_messages = None
   \<and> fst (scheduleAll env_accept 100 two_messages) = Returned
   \<and> (\<exists>j. live_jobs 1 (snd (scheduleAll env_accept 100 two_messages)) = [j]
          \<and> start_at j = 200
          \<and> jobs (snd (scheduleAll env_accept 100 two_messages)) 1 = Some (job_id j))
   \<and> live_jobs 2 (snd (scheduleAll env_accept 100 two_messages)) = []
   \<and> jobs (snd (scheduleAll env_accept 100 two_messages)) 2 = None
   \<and> live_jobs 1 (snd (scheduleAll env_reject 100 two_messages)) = []
   \<and> ErrorSchedulingMessage 1 ErrTimerEngine
       \<in> set (console (snd (scheduleAll env_reject 100 two_messages)))"
proof -
  have h1: "jobs two_messages = Map.empty" and h2: "timers two_messages = []"
    and h3: "distinct (map ID (db_messages two_messages))"
    and h4: "db_failure two_messages = None"
    by (simp_all add: two_messages_def initial_state_def msg1_def msg2_def)
  have db: "db_messages two_messages = [msg1, msg2]"
    by (simp add: two_messages_def initial_state_def)
  have ids: "ID msg1 = 1" "ID msg2 = 2" "PostponedAt msg1 = Some 200" "PostponedAt msg2 = Some 50"
    by (simp_all add: msg1_def msg2_def)
  have acc: "\<not> NewJob_rejects env_accept t" for t
    by (simp add: env_accept_def)
  have rej: "NewJob_rejects env_reject t" for t
    by (simp add: env_reject_def)
  from C5_scheduleAll_recovers_accepted_messages [OF h1 h2 h3, of env_accept 100]
  have a: "fst (scheduleAll env_accept 100 two_messages) = Returned
     \<and> (\<exists>j. live_jobs 1 (snd (scheduleAll env_accept 100 two_messages)) = [j]
            \<and> start_at j = 200
            \<and> jobs (snd (scheduleAll env_accept 100 two_messages)) 1 = Some (job_id j))
     \<and> live_jobs 2 (snd (scheduleAll env_accept 100 two_messages)) = []
     \<and> jobs (snd (scheduleAll env_accept 100 two_messages)) 2 = None"
    unfolding db using h4 by (simp add: ids acc)
  from C5_scheduleAll_recovers_accepted_messages [OF h1 h2 h3, of env_reject 100]
  have r: "live_jobs 1 (snd (scheduleAll env_reject 100 two_messages)) = []
     \<and> ErrorSchedulingMessage 1 ErrTimerEngine
         \<in> set (console (snd (scheduleAll env_reject 100 two_messages)))"
    unfolding db using h4 by (simp add: ids rej)
  from a r h1 h2 h3 h4 show ?thesis by simp
qed

text \<open>
  The claim as stated fails: message 1 is postponed to instant 200, after the call at
  instant 100, and was passed to \<open>ScheduleMessage\<close>, yet it has no live job when the
  timer engine rejects the request, and none when the query fails.
\<close>

theorem C5_counterexample:
  "PostponedAt msg1 = Some 200
   \<and> fst (scheduleAll env_reject 100 two_messages) = Returned
   \<and> live_jobs 1 (snd (scheduleAll env_reject 100 two_messages)) = []
   \<and> jobs (snd (scheduleAll env_reject 100 two_messages)) 1 = None
   \<and> console (snd (scheduleAll env_reject 100 two_messages))
       = [ErrorSchedulingMessage 1 ErrTimerEngine]
   \<and> scheduleAll env_accept 100 (two_messages\<lparr>db_failure := Some ''database is locked''\<rparr>)
       = (Returned, two_messages\<lparr>db_failure := Some ''database is locked''\<rparr>)
   \<and> live_jobs 1 (two_messages\<lparr>db_failure := Some ''database is locked''\<rparr>) = []"
  by (simp add: scheduleAll_def Find_postponed_since_def postponed_since_def ScheduleMessage_def
      NewJob_def live_jobs_def two_messages_def initial_state_def env_reject_def msg1_def msg2_def)

subsection \<open>At most one live job per message\<close>

lemma tracks_RemoveJob:
  "registry_tracks_timers s \<Longrightarrow> registry_tracks_timers (RemoveJob jobId s)"
  by (auto simp: registry_tracks_timers_def RemoveJob_def distinct_map_filter)

lemma tracks_Delete:
  assumes "registry_tracks_timers s"
  shows "registry_tracks_timers (DeleteMessageSchedule message s)"
proof (cases "jobs s (ID message)")
  case None
  then show ?thesis using assms by (simp add: DeleteMessageSchedule_def)
next
  case (Some u)
  let ?ts = "filter (\<lambda>j. job_id j \<noteq> u) (timers s)"
  have eq: "DeleteMessageSchedule message s =
              s\<lparr>timers := ?ts, jobs := (jobs s)(ID message := None)\<rparr>"
    using Some by (simp add: DeleteMessageSchedule_def RemoveJob_def Let_def)
  have d: "distinct (map job_id ?ts)"
    using assms by (simp add: registry_tracks_timers_def distinct_map_filter)
  have r: "((jobs s)(ID message := None)) (task_msg j) = Some (job_id j) \<and> job_id j < next_uuid s"
    if "j \<in> set ?ts" for j
  proof -
    from that have j: "j \<in> set (timers s)" and n: "job_id j \<noteq> u" by simp_all
    from j assms have t: "jobs s (task_msg j) = Some (job_id j)" and l: "job_id j < next_uuid s"
      by (simp_all add: registry_tracks_timers_def)
    from t n Some have "task_msg j \<noteq> ID message" by auto
    with t l show ?thesis by simp
  qed
  show ?thesis unfolding eq registry_tracks_timers_def using d r by simp
qed

lemma tracks_Schedule:
  assumes "registry_tracks_timers s" and "live_jobs msgId s = []"
  shows "registry_tracks_timers (ScheduleMessage env msgId postponedAt s)"
proof (cases "NewJob_rejects env postponedAt")
  case True
  then show ?thesis using assms(1)
    by (simp add: ScheduleMessage_def NewJob_def registry_tracks_timers_def)
next
  case False
  let ?new = "\<lparr>job_id = next_uuid s, start_at = postponedAt, task_msg = msgId\<rparr>"
  have eq: "ScheduleMessage env msgId postponedAt s =
              s\<lparr>timers := timers s @ [?new], next_uuid := Suc (next_uuid s),
                jobs := (jobs s)(msgId \<mapsto> next_uuid s)\<rparr>"
    using False by (simp add: ScheduleMessage_def NewJob_def)
  have fresh: "next_uuid s \<notin> job_id ` set (timers s)"
    using assms(1) by (auto simp: registry_tracks_timers_def)
  have d: "distinct (map job_id (timers s @ [?new]))"
    using assms(1) fresh by (simp add: registry_tracks_timers_def)
  have r: "((jobs s)(msgId \<mapsto> next_uuid s)) (task_msg j) = Some (job_id j)
           \<and> job_id j < Suc (next_uuid s)"
    if "j \<in> set (timers s @ [?new])" for j
  proof (cases "j = ?new")
    case True
    then show ?thesis by simp
  next
    case False
    with that have j: "j \<in> set (timers s)" by simp
    from j assms(1) have t: "jobs s (task_msg j) = Some (job_id j)" and l: "job_id j < next_uuid s"
      by (simp_all add: registry_tracks_timers_def)
    from j assms(2) have "task_msg j \<noteq> msgId"
      by (auto simp: live_jobs_def filter_empty_conv)
    with t l show ?thesis by simp
  qed
  show ?thesis unfolding eq registry_tracks_timers_def using d r by simp
qed

lemma tracks_fire_task:
  assumes "registry_tracks_timers s"
  shows "registry_tracks_timers (snd (fire_task env msgId s))"
proof (cases "First_by_id msgId s")
  case (Inl err)
  then show ?thesis using assms by (simp add: fire_task_def registry_tracks_timers_def)
next
  case (Inr message)
  have "registry_tracks_timers (DeleteMessageSchedule message s)"
    using assms by (rule tracks_Delete)
  then show ?thesis using Inr
    by (simp add: fire_task_def Let_def Notify_def registry_tracks_timers_def)
qed

lemma tracks_fire:
  "registry_tracks_timers s \<Longrightarrow> registry_tracks_timers (snd (fire env jobId s))"
  by (simp add: fire_def tracks_fire_task tracks_RemoveJob split: option.splits)

lemma tracks_delete_each:
  "registry_tracks_timers s \<Longrightarrow> registry_tracks_timers (delete_each messages s)"
  by (induction messages arbitrary: s) (simp_all add: tracks_Delete)

lemma tracks_ByApplication:
  "registry_tracks_timers s \<Longrightarrow> registry_tracks_timers (DeleteMessagesScheduleByApplication appID s)"
  by (simp add: DeleteMessagesScheduleByApplication_def tracks_delete_each)

lemma tracks_delete_each_app:
  "registry_tracks_timers s \<Longrightarrow> registry_tracks_timers (delete_each_app apps s)"
  by (induction apps arbitrary: s) (simp_all add: tracks_ByApplication)

lemma tracks_ByUser:
  "registry_tracks_timers s \<Longrightarrow> registry_tracks_timers (DeleteMessagesScheduleByUser userID s)"
  by (simp add: DeleteMessagesScheduleByUser_def tracks_delete_each_app split: prod.splits)

lemma tracks_Update:
  "registry_tracks_timers s \<Longrightarrow>
   registry_tracks_timers (snd (UpdateMessagePostponement msgId postponedAt s))"
  by (simp add: UpdateMessagePostponement_def registry_tracks_timers_def split: option.splits)

lemma tracks_reschedule:
  assumes "registry_tracks_timers s"
  shows "registry_tracks_timers
           (case postponedAt of
              Some t \<Rightarrow> ScheduleMessage env (ID msg) t (DeleteMessageSchedule msg s)
            | None \<Rightarrow> DeleteMessageSchedule msg s)"
proof -
  have d: "registry_tracks_timers (DeleteMessageSchedule msg s)"
    using assms by (rule tracks_Delete)
  have "jobs (DeleteMessageSchedule msg s) (ID msg) = None"
    by (simp add: DeleteMessageSchedule_jobs)
  with d have n: "live_jobs (ID msg) (DeleteMessageSchedule msg s) = []"
    by (auto simp: registry_tracks_timers_def live_jobs_def filter_empty_conv)
  show ?thesis using d n by (simp add: tracks_Schedule split: option.splits)
qed

lemma snd_update_result:
  "snd (case p of (None, s3) \<Rightarrow> (a, s3) | (Some err, s3) \<Rightarrow> (b, s3)) = snd p"
  by (cases p; cases "fst p") auto

lemma tracks_postpone:
  assumes "registry_tracks_timers s"
  shows "registry_tracks_timers (snd (postponeMessage env userID msgId postponedAt s))"
proof (cases "GetMessageByID msgId s")
  case (Inl err)
  then show ?thesis using assms by (simp add: postponeMessage_def)
next
  case (Inr found)
  show ?thesis
  proof (cases found)
    case None
    with Inr show ?thesis using assms by (simp add: postponeMessage_def)
  next
    case (Some msg)
    have u: "registry_tracks_timers (snd (UpdateMessagePostponement msgId postponedAt
               (case postponedAt of
                  Some t \<Rightarrow> ScheduleMessage env (ID msg) t (DeleteMessageSchedule msg s)
                | None \<Rightarrow> DeleteMessageSchedule msg s)))"
      using assms by (intro tracks_Update tracks_reschedule)
    show ?thesis
    proof (cases "GetApplicationByID (ApplicationID msg) s")
      case (Inl err)
      with Inr Some show ?thesis using assms by (simp add: postponeMessage_def)
    next
      case app: (Inr app)
      show ?thesis
      proof (cases "case app of None \<Rightarrow> False | Some a \<Rightarrow> app_UserID a = userID")
        case True
        with Inr Some app u show ?thesis
          by (simp add: postponeMessage_def Let_def snd_update_result)
      next
        case False
        with Inr Some app show ?thesis using assms by (simp add: postponeMessage_def)
      qed
    qed
  qed
qed

lemma tracks_step:
  "registry_tracks_timers s \<Longrightarrow> stale_cancelled x s \<Longrightarrow> registry_tracks_timers (step env x s)"
  by (cases x)
     (simp_all add: tracks_Schedule tracks_Delete tracks_fire tracks_ByApplication tracks_ByUser
        tracks_postpone)

lemma tracks_run:
  "registry_tracks_timers s \<Longrightarrow> cancels_first env ops s \<Longrightarrow> s' \<in> set (run env ops s) \<Longrightarrow>
   registry_tracks_timers s'"
proof (induction ops arbitrary: s)
  case Nil
  then show ?case by simp
next
  case (Cons x xs)
  from Cons.prems(3) consider "s' = s" | "s' \<in> set (run env xs (step env x s))"
    by auto
  then show ?case
  proof cases
    case 1
    with Cons.prems(1) show ?thesis by simp
  next
    case 2
    from Cons.prems(1,2) have "registry_tracks_timers (step env x s)"
      by (simp add: tracks_step)
    moreover from Cons.prems(2) have "cancels_first env xs (step env x s)"
      by simp
    ultimately show ?thesis using 2 by (rule Cons.IH)
  qed
qed

lemma at_most_one_same_id:
  assumes "distinct (map job_id xs)" and "\<forall>j \<in> set xs. job_id j = u"
  shows "length xs \<le> 1"
proof (cases xs)
  case Nil
  then show ?thesis by simp
next
  case (Cons a as)
  show ?thesis
  proof (cases as)
    case Nil
    with Cons show ?thesis by simp
  next
    case (Cons b bs)
    with \<open>xs = a # as\<close> have xs: "xs = a # b # bs" by simp
    from assms(2) have "job_id a = u" and "job_id b = u" unfolding xs by simp_all
    then have "job_id a = job_id b" by simp
    moreover from assms(1) have "job_id a \<noteq> job_id b" unfolding xs by simp
    ultimately show ?thesis by contradiction
  qed
qed

lemma tracks_at_most_one:
  assumes "registry_tracks_timers s"
  shows "length (live_jobs msgId s) \<le> 1
       \<and> (\<forall>j \<in> set (live_jobs msgId s). jobs s msgId = Some (job_id j))"
proof -
  have r: "\<forall>j \<in> set (live_jobs msgId s). jobs s msgId = Some (job_id j)"
    using assms by (auto simp: registry_tracks_timers_def live_jobs_def)
  have d: "distinct (map job_id (live_jobs msgId s))"
    using assms by (simp add: registry_tracks_timers_def live_jobs_def distinct_map_filter)
  show ?thesis
  proof (cases "jobs s msgId")
    case None
    with r have "live_jobs msgId s = []" by (cases "live_jobs msgId s") auto
    then show ?thesis by simp
  next
    case (Some u)
    with r have "\<forall>j \<in> set (live_jobs msgId s). job_id j = u" by auto
    with d have "length (live_jobs msgId s) \<le> 1" by (rule at_most_one_same_id)
    with r show ?thesis by simp
  qed
qed

text \<open>
  C6 (as amended). From a state in which the registry names every pending timer, at
  every point of every sequence of schedule, cancel, fire, cascade-cancel and
  \<open>postponeMessage\<close> operations whose \<open>ScheduleMessage\<close> calls are made for
  identifiers without a pending timer, a message identifier has at most one pending
  timer, and the registry names it.
\<close>

theorem C6_one_live_job_when_cancelled_first:
  assumes "registry_tracks_timers s" and "cancels_first env ops s"
  shows "\<forall>s' \<in> set (run env ops s). \<forall>msgId.
           length (live_jobs msgId s') \<le> 1
           \<and> (\<forall>j \<in> set (live_jobs msgId s'). jobs s' msgId = Some (job_id j))"
proof (intro ballI allI)
  fix s' msgId
  assume "s' \<in> set (run env ops s)"
  with assms have "registry_tracks_timers s'" by (rule tracks_run)
  then show "length (live_jobs msgId s') \<le> 1
       \<and> (\<forall>j \<in> set (live_jobs msgId s'). jobs s' msgId = Some (job_id j))"
    by (rule tracks_at_most_one)
qed

theorem C6_one_live_job_witness:
  "registry_tracks_timers (initial_state [msg1] [app7] None)
   \<and> cancels_first env_accept [Schedule 1 200, Postpone 3 1 (Some 300)] (initial_state [msg1] [app7] None)
   \<and> length (live_jobs 1 (step env_accept (Postpone 3 1 (Some 300))
                (step env_accept (Schedule 1 200) (initial_state [msg1] [app7] None)))) \<le> 1"
proof -
  let ?s0 = "initial_state [msg1] [app7] None"
  let ?ops = "[Schedule 1 200, Postpone 3 1 (Some 300)]"
  have h1: "registry_tracks_timers ?s0"
    by (simp add: registry_tracks_timers_def initial_state_def)
  have h2: "cancels_first env_accept ?ops ?s0"
    by (simp add: live_jobs_def initial_state_def)
  have v: "step env_accept (Postpone 3 1 (Some 300)) (step env_accept (Schedule 1 200) ?s0)
             \<in> set (run env_accept ?ops ?s0)"
    by (simp only: run.simps list.set insert_iff simp_thms)
  from C6_one_live_job_when_cancelled_first [OF h1 h2] v h1 h2 show ?thesis by blast
qed

text \<open>
  The claim as stated fails: \<open>ScheduleMessage\<close> for an identifier that has a live job
  overwrites the registry entry and leaves the earlier timer pending; both timers fire
  and the message is delivered twice.
\<close>

theorem C6_counterexample:
  "live_jobs 1 (step env_accept (Schedule 1 200)
                 (step env_accept (Schedule 1 300) (initial_state [msg1] [app7] None)))
     = [\<lparr>job_id = 0, start_at = 300, task_msg = 1\<rparr>, \<lparr>job_id = 1, start_at = 200, task_msg = 1\<rparr>]
   \<and> jobs (step env_accept (Schedule 1 200)
             (step env_accept (Schedule 1 300) (initial_state [msg1] [app7] None))) 1 = Some 1
   \<and> map fst (notified (step env_accept (Fire 0) (step env_accept (Fire 1)
         (step env_accept (Schedule 1 200)
           (step env_accept (Schedule 1 300) (initial_state [msg1] [app7] None)))))) = [7, 7]"
  by (simp add: live_jobs_def ScheduleMessage_def NewJob_def env_accept_def initial_state_def
      fire_def fire_task_def First_by_id_def RemoveJob_def DeleteMessageSchedule_def Notify_def
      Let_def msg1_def)

end
